theory Spec2Isabelle
  imports Complex_Main
begin

section \<open>The Workshop download pipeline of steamcmd/base.py\<close>

text \<open>
  A shallow embedding of \<^verbatim>\<open>ServerBase\<close> (src/steamcmd/base.py): the metadata
  client with its retry loop, the collection resolver, the change-detection loop of
  \<^verbatim>\<open>download_collections\<close>, the bulk fetcher \<^verbatim>\<open>_download_file\<close> and the
  auxiliary \<^verbatim>\<open>_allied_mods_download\<close>.

  Every method acts on a \<open>world\<close> (file system, requests attempted, seconds slept,
  log records) and returns either a Python exception (\<open>Inl\<close>) or a value (\<open>Inr\<close>),
  together with the world it leaves behind. The remote side and the clock are an
  \<open>env\<close>: the outcome of a call into the \<^verbatim>\<open>requests\<close> library is a function of the
  requests attempted before it and of the request itself.
\<close>

subsection \<open>Data\<close>

text \<open>An absolute path, as its components below the root.\<close>

type_synonym path = "string list"

text \<open>What \<^verbatim>\<open>Path.stat()\<close> and \<^verbatim>\<open>Path.is_dir()\<close> observe of a directory entry.\<close>

record node =
  is_dir :: bool
  st_size :: nat
  st_mtime :: real

datatype http_verb = GET | POST | HEAD

record request =
  rmethod :: http_verb
  rurl :: string
  rdata :: "(string \<times> string) list"

text \<open>
  The response JSON, in the shape the code reads it:
  \<^verbatim>\<open>response.collectiondetails[].children[].publishedfileid\<close> and
  \<^verbatim>\<open>response.publishedfiledetails[]\<close> with the five fields used.
\<close>

record child =
  publishedfileid :: string

record collectiondetail =
  children :: "child list"

record publishedfiledetail =
  pfd_publishedfileid :: string
  pfd_filename :: string
  pfd_file_size :: int
  pfd_time_updated :: int
  pfd_file_url :: string

datatype payload =
  NoJson
  | CollectionDetails "collectiondetail list"
  | PublishedFileDetails "publishedfiledetail list"

record response =
  status_code :: int
  content :: string
  headers :: "(string \<times> string) list"
  json :: payload

text \<open>The value stored per file id by \<^verbatim>\<open>_get_steam_file_info\<close>.\<close>

record file_info =
  file_name :: string
  file_size :: int
  time_updated :: int
  file_url :: string

datatype error =
  UnboundLocalError string
  | KeyError string
  | JSONDecodeError
  | ValueError string
  | HTTPError int
  | RequestException string
  | FileNotFoundError path
  | NotADirectoryError path
  | IsADirectoryError path
  | FileExistsError path
  | CollectionIdsError int string int string
  | FileInfoError int string int string
  | LatestVersionError string

datatype log_record =
  LogNotADirectory path
  | LogFileIds "string list"
  | LogFileDetails "(string \<times> file_info) list"
  | LogSkipping string
  | LogDownloading string
  | LogAlreadyInstalled string
  | LogHeaders "(string \<times> string) list"
  | LogDownloadingMetamod string

record world =
  fs :: "path \<rightharpoonup> node"
  sent :: "request list"
  slept :: int
  logged :: "log_record list"

record env =
  http :: "request list \<Rightarrow> request \<Rightarrow> error + response"
  clock :: "request list \<Rightarrow> real"

type_synonym 'a io = "world \<Rightarrow> (error + 'a) \<times> world"

definition return_io :: "'a \<Rightarrow> 'a io" where
  "return_io x w = (Inr x, w)"

definition raise_io :: "error \<Rightarrow> 'a io" where
  "raise_io e w = (Inl e, w)"

definition bind_io :: "'a io \<Rightarrow> ('a \<Rightarrow> 'b io) \<Rightarrow> 'b io" where
  "bind_io m f w = (case m w of (Inl e, w') \<Rightarrow> (Inl e, w') | (Inr x, w') \<Rightarrow> f x w')"

subsection \<open>Calls into the libraries\<close>

text \<open>
  \<^verbatim>\<open>requests.get/post/head\<close>: the request is recorded as attempted, and the
  environment decides whether the library raises or returns a response.
\<close>

definition requests_request :: "env \<Rightarrow> request \<Rightarrow> response io" where
  "requests_request e rq w = (http e (sent w) rq, w\<lparr>sent := sent w @ [rq]\<rparr>)"

definition post_request :: "string \<Rightarrow> (string \<times> string) list \<Rightarrow> request" where
  "post_request u d = \<lparr>rmethod = POST, rurl = u, rdata = d\<rparr>"

definition get_request :: "string \<Rightarrow> request" where
  "get_request u = \<lparr>rmethod = GET, rurl = u, rdata = []\<rparr>"

definition head_request :: "string \<Rightarrow> request" where
  "head_request u = \<lparr>rmethod = HEAD, rurl = u, rdata = []\<rparr>"

definition requests_post :: "env \<Rightarrow> string \<Rightarrow> (string \<times> string) list \<Rightarrow> response io" where
  "requests_post e u d = requests_request e (post_request u d)"

definition requests_get :: "env \<Rightarrow> string \<Rightarrow> response io" where
  "requests_get e u = requests_request e (get_request u)"

definition requests_head :: "env \<Rightarrow> string \<Rightarrow> response io" where
  "requests_head e u = requests_request e (head_request u)"

text \<open>\<^verbatim>\<open>time.sleep\<close> refuses a negative length.\<close>

definition sleep :: "int \<Rightarrow> unit io" where
  "sleep s w =
     (if s < 0 then (Inl (ValueError ''sleep length must be non-negative''), w)
      else (Inr (), w\<lparr>slept := slept w + s\<rparr>))"

definition log_msg :: "log_record \<Rightarrow> unit io" where
  "log_msg r w = (Inr (), w\<lparr>logged := logged w @ [r]\<rparr>)"

text \<open>\<^verbatim>\<open>str\<close> of a non-negative integer: its decimal digits.\<close>

definition digit_char :: "nat \<Rightarrow> char" where
  "digit_char d = char_of (48 + d)"

function str_nat :: "nat \<Rightarrow> string" where
  "str_nat n = (if n < 10 then [digit_char n] else str_nat (n div 10) @ [digit_char (n mod 10)])"
  by pat_completeness auto
termination
  by (relation "measure (\<lambda>n. n)") auto

declare str_nat.simps [simp del]

subsection \<open>The metadata client and the collection resolver\<close>

definition get_collection_url :: string where
  "get_collection_url = ''https://api.steampowered.com/ISteamRemoteStorage/GetCollectionDetails/v1/''"

definition get_file_details_url :: string where
  "get_file_details_url = ''https://api.steampowered.com/ISteamRemoteStorage/GetPublishedFileDetails/v1/''"

text \<open>
  \<^verbatim>\<open>for i, v in enumerate(ids): data[f"publishedfileids[{i}]"] = v\<close>, the form
  fields in insertion order, counting from \<open>i\<close>.
\<close>

fun publishedfileids_fields :: "nat \<Rightarrow> string list \<Rightarrow> (string \<times> string) list" where
  "publishedfileids_fields i [] = []"
| "publishedfileids_fields i (v # vs) =
     (''publishedfileids['' @ str_nat i @ '']'', v) # publishedfileids_fields (Suc i) vs"

text \<open>Lines 208-210 and 246-248: the form bodies of the two operations.\<close>

definition collection_data :: "string list \<Rightarrow> (string \<times> string) list" where
  "collection_data collection_ids =
     (''collectioncount'', str_nat (length collection_ids))
     # publishedfileids_fields 0 collection_ids"

definition file_details_data :: "string list \<Rightarrow> (string \<times> string) list" where
  "file_details_data file_ids =
     (''itemcount'', str_nat (length file_ids)) # publishedfileids_fields 0 file_ids"

text \<open>
  The retry loop, which both metadata operations contain verbatim
  (lines 212-216 and 250-254):
  \<^verbatim>\<open>
  for _ in range(retries):
      resp = requests.post(url, data=data)
      if resp.status_code == 200:
          break
      sleep(retry_seconds)
  \<close>
  The first argument is the number of iterations left; the second is \<^verbatim>\<open>resp\<close>
  as bound so far (\<open>None\<close> while the name is unbound). The result is \<^verbatim>\<open>resp\<close>
  after the loop.
\<close>

fun post_retry_loop ::
  "nat \<Rightarrow> response option \<Rightarrow> env \<Rightarrow> string \<Rightarrow> (string \<times> string) list \<Rightarrow> int \<Rightarrow> response option io"
where
  "post_retry_loop 0 resp e u d retry_seconds w = (Inr resp, w)"
| "post_retry_loop (Suc n) resp e u d retry_seconds w =
     (case requests_post e u d w of
        (Inl err, w1) \<Rightarrow> (Inl err, w1)
      | (Inr r, w1) \<Rightarrow>
          if status_code r = 200 then (Inr (Some r), w1)
          else (case sleep retry_seconds w1 of
                  (Inl err, w2) \<Rightarrow> (Inl err, w2)
                | (Inr _, w2) \<Rightarrow> post_retry_loop n (Some r) e u d retry_seconds w2))"

text \<open>
  Lines 225-234: the nested loop that appends each child's id unless it is present.
\<close>

fun append_children :: "child list \<Rightarrow> string list \<Rightarrow> string list" where
  "append_children [] resp = resp"
| "append_children (c # cs) resp =
     append_children cs
       (if publishedfileid c \<notin> set resp then resp @ [publishedfileid c] else resp)"

fun collect_file_ids :: "collectiondetail list \<Rightarrow> string list \<Rightarrow> string list" where
  "collect_file_ids [] resp = resp"
| "collect_file_ids (result # results) resp =
     collect_file_ids results (append_children (children result) resp)"

definition get_collection_file_ids ::
  "env \<Rightarrow> string list \<Rightarrow> int \<Rightarrow> int \<Rightarrow> string list io"
where
  "get_collection_file_ids e collection_ids retries retry_seconds =
     (let data = collection_data collection_ids
      in bind_io (post_retry_loop (nat retries) None e get_collection_url data retry_seconds)
           (\<lambda>resp. case resp of
               None \<Rightarrow> raise_io (UnboundLocalError ''resp'')
             | Some r \<Rightarrow>
                 if status_code r \<noteq> 200
                 then raise_io (CollectionIdsError retries get_collection_url
                               (status_code r) (content r))
                 else (case json r of
                         NoJson \<Rightarrow> raise_io JSONDecodeError
                       | PublishedFileDetails _ \<Rightarrow> raise_io (KeyError ''collectiondetails'')
                       | CollectionDetails collections \<Rightarrow>
                           return_io (collect_file_ids collections []))))"

text \<open>
  Lines 261-271: the loop that stores the four fields under the file id unless the id
  is already a key. The dictionary is kept as the list of its items in insertion order,
  the order in which \<^verbatim>\<open>items()\<close> yields them.
\<close>

definition file_info_of :: "publishedfiledetail \<Rightarrow> file_info" where
  "file_info_of file_details =
     \<lparr>file_name = pfd_filename file_details,
      file_size = pfd_file_size file_details,
      time_updated = pfd_time_updated file_details,
      file_url = pfd_file_url file_details\<rparr>"

fun file_info_loop ::
  "publishedfiledetail list \<Rightarrow> (string \<times> file_info) list \<Rightarrow> (string \<times> file_info) list"
where
  "file_info_loop [] result = result"
| "file_info_loop (file_details # rest) result =
     file_info_loop rest
       (if map_of result (pfd_publishedfileid file_details) = None
        then result @ [(pfd_publishedfileid file_details, file_info_of file_details)]
        else result)"

definition get_steam_file_info ::
  "env \<Rightarrow> string list \<Rightarrow> int \<Rightarrow> int \<Rightarrow> (string \<times> file_info) list io"
where
  "get_steam_file_info e file_ids retries retry_seconds =
     (let data = file_details_data file_ids
      in bind_io (post_retry_loop (nat retries) None e get_file_details_url data retry_seconds)
           (\<lambda>resp. case resp of
               None \<Rightarrow> raise_io (UnboundLocalError ''resp'')
             | Some r \<Rightarrow>
                 if status_code r \<noteq> 200
                 then raise_io (FileInfoError retries get_collection_url
                               (status_code r) (content r))
                 else (case json r of
                         NoJson \<Rightarrow> raise_io JSONDecodeError
                       | CollectionDetails _ \<Rightarrow> raise_io (KeyError ''publishedfiledetails'')
                       | PublishedFileDetails fds \<Rightarrow>
                           return_io (file_info_loop fds []))))"

subsection \<open>The file system and the bulk fetcher\<close>

definition path_exists :: "path \<Rightarrow> world \<Rightarrow> bool" where
  "path_exists p w = (fs w p \<noteq> None)"

definition path_is_dir :: "path \<Rightarrow> world \<Rightarrow> bool" where
  "path_is_dir p w = (case fs w p of None \<Rightarrow> False | Some st \<Rightarrow> is_dir st)"

text \<open>
  \<^verbatim>\<open>Path.mkdir()\<close> with its defaults: the parent must be an existing directory
  and the path itself must be absent.
\<close>

definition mkdir :: "env \<Rightarrow> path \<Rightarrow> unit io" where
  "mkdir e p w =
     (case fs w p of
        Some _ \<Rightarrow> (Inl (FileExistsError p), w)
      | None \<Rightarrow>
          (case fs w (butlast p) of
             None \<Rightarrow> (Inl (FileNotFoundError p), w)
           | Some d \<Rightarrow>
               if is_dir d
               then (Inr (), w\<lparr>fs := (fs w)(p \<mapsto>
                       \<lparr>is_dir = True, st_size = 4096, st_mtime = clock e (sent w)\<rparr>)\<rparr>)
               else (Inl (NotADirectoryError p), w)))"

text \<open>
  \<^verbatim>\<open>open(p, "wb")\<close> followed by writing the whole body: the parent must be an
  existing directory and the path must not be a directory; the file then holds the
  body and carries the time of the write.
\<close>

definition write_file :: "env \<Rightarrow> path \<Rightarrow> string \<Rightarrow> unit io" where
  "write_file e p body w =
     (case fs w (butlast p) of
        None \<Rightarrow> (Inl (FileNotFoundError p), w)
      | Some d \<Rightarrow>
          if \<not> is_dir d then (Inl (NotADirectoryError p), w)
          else if path_is_dir p w then (Inl (IsADirectoryError p), w)
          else (Inr (), w\<lparr>fs := (fs w)(p \<mapsto>
                  \<lparr>is_dir = False, st_size = length body, st_mtime = clock e (sent w)\<rparr>)\<rparr>))"

text \<open>
  \<^verbatim>\<open>Response.raise_for_status()\<close> of the requests library raises for the client
  and server error classes, 400 to 599.
\<close>

definition raise_for_status :: "response \<Rightarrow> unit io" where
  "raise_for_status r =
     (if 400 \<le> status_code r \<and> status_code r < 600
      then raise_io (HTTPError (status_code r)) else return_io ())"

definition download_file :: "env \<Rightarrow> string \<Rightarrow> path \<Rightarrow> unit io" where
  "download_file e url file_path =
     bind_io (requests_get e url)
       (\<lambda>r. bind_io (raise_for_status r) (\<lambda>_. write_file e file_path (content r)))"

subsection \<open>The change-detection loop of download_collections\<close>

text \<open>
  \<^verbatim>\<open>Path(name).suffix\<close> of pathlib: the final component's text from its last
  dot on, unless that dot is the component's first or last character.
\<close>

definition path_name :: "string \<Rightarrow> string" where
  "path_name s =
     rev (takeWhile (\<lambda>c. c \<noteq> CHR ''/'') (dropWhile (\<lambda>c. c = CHR ''/'') (rev s)))"

definition path_suffix :: "string \<Rightarrow> string" where
  "path_suffix s =
     (let name = path_name s;
          ext = rev (takeWhile (\<lambda>c. c \<noteq> CHR ''.'') (rev name))
      in if CHR ''.'' \<in> set name \<and> ext \<noteq> [] \<and> length ext + 1 < length name
         then CHR ''.'' # ext else [])"

text \<open>
  Lines 167-171: \<^verbatim>\<open>Path(path.join(p.absolute(), f"{k}{suffix}"))\<close>, for a file id
  without a path separator.
\<close>

definition file_path_of :: "path \<Rightarrow> string \<Rightarrow> file_info \<Rightarrow> path" where
  "file_path_of p k details = p @ [k @ path_suffix (file_name details)]"

text \<open>The destination path of an item of the metadata mapping.\<close>

definition dest_path :: "path \<Rightarrow> string \<times> file_info \<Rightarrow> path" where
  "dest_path p kd = file_path_of p (fst kd) (snd kd)"

text \<open>
  Lines 172-176: the test under which an entry is skipped. \<^verbatim>\<open>st_mtime\<close> is compared
  with the integer \<^verbatim>\<open>time_updated\<close> by value.
\<close>

definition already_exists :: "world \<Rightarrow> path \<Rightarrow> file_info \<Rightarrow> bool" where
  "already_exists w file_path details =
     (case fs w file_path of
        None \<Rightarrow> False
      | Some st \<Rightarrow>
          int (st_size st) = file_size details
          \<or> real_of_int (time_updated details) < st_mtime st)"

text \<open>Lines 167-183: one iteration of the loop over \<^verbatim>\<open>file_details.items()\<close>.\<close>

definition download_entry :: "env \<Rightarrow> path \<Rightarrow> string \<times> file_info \<Rightarrow> unit io" where
  "download_entry e p kd w =
     (let k = fst kd; details = snd kd; file_path = file_path_of p k details
      in if already_exists w file_path details
         then log_msg (LogSkipping (file_name details)) w
         else bind_io (log_msg (LogDownloading (file_name details)))
                (\<lambda>_. download_file e (file_url details) file_path) w)"

fun download_loop :: "env \<Rightarrow> path \<Rightarrow> (string \<times> file_info) list \<Rightarrow> unit io" where
  "download_loop e p [] w = (Inr (), w)"
| "download_loop e p (kd # rest) w =
     (case download_entry e p kd w of
        (Inl err, w') \<Rightarrow> (Inl err, w')
      | (Inr _, w') \<Rightarrow> download_loop e p rest w')"

text \<open>Lines 153-158: the check of the install path.\<close>

definition check_install_path :: "env \<Rightarrow> path \<Rightarrow> unit io" where
  "check_install_path e p w =
     (if path_exists p w
      then (if \<not> path_is_dir p w then log_msg (LogNotADirectory p) w else (Inr (), w))
      else mkdir e p w)"

text \<open>Lines 160-183: resolution, metadata, and the loop, with the default retry budget.\<close>

definition resolve_and_download :: "env \<Rightarrow> string list \<Rightarrow> path \<Rightarrow> unit io" where
  "resolve_and_download e collection_ids p =
     bind_io (get_collection_file_ids e collection_ids 5 5)
       (\<lambda>file_ids. bind_io (log_msg (LogFileIds file_ids))
       (\<lambda>_. bind_io (get_steam_file_info e file_ids 5 5)
       (\<lambda>file_details. bind_io (log_msg (LogFileDetails file_details))
       (\<lambda>_. download_loop e p file_details))))"

definition download_collections :: "env \<Rightarrow> string list \<Rightarrow> path \<Rightarrow> unit io" where
  "download_collections e collection_ids install_path =
     bind_io (check_install_path e install_path)
       (\<lambda>_. resolve_and_download e collection_ids install_path)"

subsection \<open>The auxiliary mod download\<close>

text \<open>
  \<^verbatim>\<open>datetime.fromtimestamp\<close> keeps microseconds, rounding half to even; instants are
  integers of microseconds. \<^verbatim>\<open>timedelta.days\<close> is the floor of the difference in days.
\<close>

definition fromtimestamp :: "real \<Rightarrow> int" where
  "fromtimestamp t =
     (let x = t * 1000000; f = \<lfloor>x\<rfloor>; d = x - of_int f
      in if d < 1 / 2 then f else if 1 / 2 < d then f + 1
         else if even f then f else f + 1)"

definition timedelta_days :: "int \<Rightarrow> int" where
  "timedelta_days d = d div 86400000000"

text \<open>
  Lines 302-317: the test made when the install path is a file. The result is whether
  to skip, with the response whose headers line 319 logs. \<open>parsedate\<close> stands for
  \<^verbatim>\<open>email.utils.parsedate_to_datetime\<close>, \<open>None\<close> where it raises.
\<close>

definition allied_mods_check ::
  "env \<Rightarrow> (string \<Rightarrow> int option) \<Rightarrow> path \<Rightarrow> string \<Rightarrow> response \<Rightarrow> (bool \<times> response) io"
where
  "allied_mods_check e parsedate install_path download_url resp w =
     (case fs w install_path of
        None \<Rightarrow> (Inr (False, resp), w)
      | Some st \<Rightarrow>
          if is_dir st then (Inr (False, resp), w)
          else bind_io (requests_head e download_url)
                 (\<lambda>resp2.
                    case map_of (headers resp2) ''Content-Length'' of
                      None \<Rightarrow> raise_io (KeyError ''content-length'')
                    | Some remote_size \<Rightarrow>
                        (let local_size = str_nat (st_size st) in
                         case map_of (headers resp2) ''Last-Modified'' of
                           None \<Rightarrow> raise_io (KeyError ''last-modified'')
                         | Some lm \<Rightarrow>
                             (case parsedate lm of
                                None \<Rightarrow> raise_io (ValueError lm)
                              | Some remote_ts \<Rightarrow>
                                  (let local_ts = fromtimestamp (st_mtime st);
                                       time_diff = remote_ts - local_ts
                                   in return_io
                                        (remote_size = local_size \<and> timedelta_days time_diff < 0,
                                         resp2))))) w)"

definition allied_mods_download ::
  "env \<Rightarrow> (string \<Rightarrow> int option) \<Rightarrow> path \<Rightarrow> string \<Rightarrow> string \<Rightarrow> string \<Rightarrow> bool io"
where
  "allied_mods_download e parsedate install_path url_prefix version latest_suffix =
     (let latest_url = url_prefix @ ''/'' @ version @ ''/'' @ latest_suffix
      in bind_io (requests_get e latest_url)
           (\<lambda>resp.
              if status_code resp \<noteq> 200 then raise_io (LatestVersionError latest_suffix)
              else (let download_name = content resp;
                        download_url = url_prefix @ ''/'' @ version @ ''/'' @ download_name
                    in bind_io (allied_mods_check e parsedate install_path download_url resp)
                         (\<lambda>sr. if fst sr
                                then bind_io (log_msg (LogAlreadyInstalled download_name))
                                       (\<lambda>_. return_io False)
                                else bind_io (log_msg (LogHeaders (headers (snd sr))))
                                  (\<lambda>_. bind_io (log_msg (LogDownloadingMetamod download_url))
                                  (\<lambda>_. bind_io (download_file e download_url install_path)
                                  (\<lambda>_. return_io True)))))))"

subsection \<open>First occurrences\<close>

text \<open>
  The list of the elements of a list in the order of their first occurrence: the head
  stays, and its later copies are removed from what the rest yields.
\<close>

fun first_occurrences :: "'a list \<Rightarrow> 'a list" where
  "first_occurrences [] = []"
| "first_occurrences (x # xs) = x # removeAll x (first_occurrences xs)"

subsection \<open>Example worlds and remotes\<close>

definition world0 :: world where
  "world0 = \<lparr>fs = Map.empty, sent = [], slept = 0, logged = []\<rparr>"

definition collections_AB :: "collectiondetail list" where
  "collections_AB =
     [\<lparr>children = [\<lparr>publishedfileid = ''42''\<rparr>, \<lparr>publishedfileid = ''7''\<rparr>]\<rparr>,
      \<lparr>children = [\<lparr>publishedfileid = ''42''\<rparr>]\<rparr>]"

definition env_collections_AB :: env where
  "env_collections_AB =
     \<lparr>http = (\<lambda>h rq. Inr \<lparr>status_code = 200, content = [], headers = [],
                             json = CollectionDetails collections_AB\<rparr>),
      clock = (\<lambda>h. 0)\<rparr>"

definition details_dup :: "publishedfiledetail list" where
  "details_dup =
     [\<lparr>pfd_publishedfileid = ''42'', pfd_filename = ''map.vpk'', pfd_file_size = 100,
       pfd_time_updated = 1000, pfd_file_url = ''http://cdn/a''\<rparr>,
      \<lparr>pfd_publishedfileid = ''42'', pfd_filename = ''other.vpk'', pfd_file_size = 7,
       pfd_time_updated = 2000, pfd_file_url = ''http://cdn/b''\<rparr>]"

definition env_details_dup :: env where
  "env_details_dup =
     \<lparr>http = (\<lambda>h rq. Inr \<lparr>status_code = 200, content = [], headers = [],
                             json = PublishedFileDetails details_dup\<rparr>),
      clock = (\<lambda>h. 0)\<rparr>"

definition collection_request :: "string list \<Rightarrow> request" where
  "collection_request collection_ids =
     post_request get_collection_url (collection_data collection_ids)"

definition file_details_request :: "string list \<Rightarrow> request" where
  "file_details_request file_ids =
     post_request get_file_details_url (file_details_data file_ids)"

definition response_busy :: response where
  "response_busy = \<lparr>status_code = 500, content = ''busy'', headers = [], json = NoJson\<rparr>"

definition env_unavailable :: env where
  "env_unavailable = \<lparr>http = (\<lambda>h rq. Inr response_busy), clock = (\<lambda>h. 0)\<rparr>"

definition dir_node :: node where
  "dir_node = \<lparr>is_dir = True, st_size = 4096, st_mtime = 0\<rparr>"

definition info_map :: file_info where
  "info_map = \<lparr>file_name = ''map.vpk'', file_size = 100, time_updated = 5000,
               file_url = ''http://cdn/map''\<rparr>"

definition info_other :: file_info where
  "info_other = \<lparr>file_name = ''other.vpk'', file_size = 7, time_updated = 5000,
                 file_url = ''http://cdn/other''\<rparr>"

text \<open>An install directory holding \<^verbatim>\<open>42.vpk\<close>, 100 bytes, older than \<open>info_map\<close>.\<close>

definition world_installed :: world where
  "world_installed =
     \<lparr>fs = [[''addons''] \<mapsto> dir_node,
             [''addons'', ''42.vpk''] \<mapsto> \<lparr>is_dir = False, st_size = 100, st_mtime = 1000\<rparr>,
             [''addons'', ''43.vpk''] \<mapsto> \<lparr>is_dir = False, st_size = 9, st_mtime = 1000\<rparr>],
      sent = [], slept = 0, logged = []\<rparr>"

definition env_not_found :: env where
  "env_not_found =
     \<lparr>http = (\<lambda>h rq. Inr \<lparr>status_code = 404, content = ''gone'', headers = [], json = NoJson\<rparr>),
      clock = (\<lambda>h. 9000)\<rparr>"



definition world_empty_dir :: world where
  "world_empty_dir =
     \<lparr>fs = [[] \<mapsto> dir_node, [''addons''] \<mapsto> dir_node],
      sent = [], slept = 0, logged = []\<rparr>"

definition details_no_url :: "publishedfiledetail list" where
  "details_no_url =
     [\<lparr>pfd_publishedfileid = ''42'', pfd_filename = ''map.vpk'', pfd_file_size = 100,
       pfd_time_updated = 5000, pfd_file_url = []\<rparr>]"

definition env_no_url :: env where
  "env_no_url =
     \<lparr>http = (\<lambda>h rq.
         if rurl rq = get_collection_url
         then Inr \<lparr>status_code = 200, content = [], headers = [],
                   json = CollectionDetails [\<lparr>children = [\<lparr>publishedfileid = ''42''\<rparr>]\<rparr>]\<rparr>
         else if rurl rq = get_file_details_url
         then Inr \<lparr>status_code = 200, content = [], headers = [],
                   json = PublishedFileDetails details_no_url\<rparr>
         else Inl (RequestException ''MissingSchema'')),
      clock = (\<lambda>h. 9000)\<rparr>"

definition env_serving :: env where
  "env_serving =
     \<lparr>http = (\<lambda>h rq. Inr \<lparr>status_code = 200, content = replicate 100 (CHR ''x''),
                             headers = [], json = NoJson\<rparr>),
      clock = (\<lambda>h. 9000)\<rparr>"

definition world_after_first_run :: world where
  "world_after_first_run =
     \<lparr>fs = [[] \<mapsto> dir_node, [''addons''] \<mapsto> dir_node,
             [''addons'', ''42.vpk''] \<mapsto> \<lparr>is_dir = False, st_size = 100, st_mtime = 9000\<rparr>],
      sent = [get_request ''http://cdn/map''], slept = 0,
      logged = [LogDownloading ''map.vpk'']\<rparr>"

definition world_mod :: world where
  "world_mod =
     \<lparr>fs = [[] \<mapsto> dir_node, [''addons''] \<mapsto> dir_node,
             [''addons'', ''metamod.tar.gz'']
               \<mapsto> \<lparr>is_dir = False, st_size = 100, st_mtime = 2000\<rparr>],
      sent = [], slept = 0, logged = []\<rparr>"

definition response_latest :: response where
  "response_latest =
     \<lparr>status_code = 200, content = ''mm.tar.gz'', headers = [], json = NoJson\<rparr>"

definition response_head :: response where
  "response_head =
     \<lparr>status_code = 200, content = [],
      headers = [(''Content-Length'', ''100''), (''Last-Modified'', ''stamp'')],
      json = NoJson\<rparr>"

definition env_mod :: env where
  "env_mod =
     \<lparr>http = (\<lambda>h rq. if rmethod rq = HEAD then Inr response_head else Inr response_latest),
      clock = (\<lambda>h. 9000)\<rparr>"

text \<open>A parser that reads every date as the instant \<open>t\<close>.\<close>

definition parsedate_as :: "int \<Rightarrow> string \<Rightarrow> int option" where
  "parsedate_as t s = Some t"

section \<open>Properties\<close>

subsection \<open>First occurrences and the two deduplicating loops\<close>

lemma set_first_occurrences: "set (first_occurrences xs) = set xs"
  by (induction xs) auto

lemma distinct_first_occurrences: "distinct (first_occurrences xs)"
  by (induction xs) (auto simp: distinct_removeAll)

lemma first_occurrences_append:
  "first_occurrences (xs @ ys) = first_occurrences xs @ filter (\<lambda>y. y \<notin> set xs) (first_occurrences ys)"
  by (induction xs) (auto simp: removeAll_filter_not_eq set_first_occurrences filter_id_conv intro: filter_cong)

lemma append_children_eq:
  "append_children cs resp =
     resp @ filter (\<lambda>x. x \<notin> set resp) (first_occurrences (map publishedfileid cs))"
proof (induction cs arbitrary: resp)
  case Nil
  then show ?case by simp
next
  case (Cons c cs)
  show ?case
  proof (cases "publishedfileid c \<in> set resp")
    case True
    then show ?thesis
      by (auto simp: Cons.IH removeAll_filter_not_eq intro: filter_cong)
  next
    case False
    then show ?thesis
      by (auto simp: Cons.IH removeAll_filter_not_eq intro: filter_cong)
  qed
qed

lemma collect_file_ids_eq:
  "collect_file_ids cds resp =
     resp @ filter (\<lambda>x. x \<notin> set resp)
              (first_occurrences (concat (map (\<lambda>c. map publishedfileid (children c)) cds)))"
proof (induction cds arbitrary: resp)
  case Nil
  then show ?case by simp
next
  case (Cons cd cds)
  show ?case
    by (auto simp: Cons.IH append_children_eq first_occurrences_append set_first_occurrences intro: filter_cong)
qed

subsection \<open>The retry loop\<close>

lemma requests_post_eq:
  "requests_post e u d w = (http e (sent w) (post_request u d), w\<lparr>sent := sent w @ [post_request u d]\<rparr>)"
  by (simp add: requests_post_def requests_request_def)

lemma post_retry_loop_sent:
  "post_retry_loop n r0 e u d s w = (res, w') \<Longrightarrow>
     \<exists>k\<le>n. sent w' = sent w @ replicate k (post_request u d) \<and> (0 < n \<longrightarrow> 0 < k)
       \<and> fs w' = fs w \<and> logged w' = logged w"
proof (induction n arbitrary: r0 w)
  case 0
  then show ?case by auto
next
  case (Suc n)
  let ?rq = "post_request u d"
  let ?w1 = "w\<lparr>sent := sent w @ [?rq]\<rparr>"
  show ?case
  proof (cases "http e (sent w) ?rq")
    case (Inl err)
    with Suc.prems have "w' = ?w1" by (simp add: requests_post_eq)
    then have "sent w' = sent w @ replicate 1 ?rq \<and> fs w' = fs w \<and> logged w' = logged w" by simp
    then show ?thesis by (metis One_nat_def Suc_leI zero_less_Suc zero_less_one)
  next
    case (Inr r)
    show ?thesis
    proof (cases "status_code r = 200 \<or> s < 0")
      case True
      with Suc.prems Inr have "w' = ?w1" by (auto simp: requests_post_eq sleep_def split: if_splits)
      then have "sent w' = sent w @ replicate 1 ?rq \<and> fs w' = fs w \<and> logged w' = logged w" by simp
      then show ?thesis by (metis One_nat_def Suc_leI zero_less_Suc zero_less_one)
    next
      case False
      let ?w2 = "?w1\<lparr>slept := slept ?w1 + s\<rparr>"
      from False Suc.prems Inr have "post_retry_loop n (Some r) e u d s ?w2 = (res, w')"
        by (simp add: requests_post_eq sleep_def)
      from Suc.IH[OF this] obtain k where k: "k \<le> n" "sent w' = sent ?w2 @ replicate k ?rq"
        "fs w' = fs ?w2" "logged w' = logged ?w2" by blast
      then have "Suc k \<le> Suc n \<and> sent w' = sent w @ replicate (Suc k) ?rq \<and> 0 < Suc k
        \<and> fs w' = fs w \<and> logged w' = logged w" by simp
      then show ?thesis by blast
    qed
  qed
qed

lemma post_retry_loop_last:
  "post_retry_loop n r0 e u d s w = (Inr (Some r), w') \<Longrightarrow>
     (Some r = r0 \<and> sent w' = sent w)
     \<or> (\<exists>h. sent w' = h @ [post_request u d] \<and> http e h (post_request u d) = Inr r)"
proof (induction n arbitrary: r0 w)
  case 0
  then show ?case by auto
next
  case (Suc n)
  let ?rq = "post_request u d"
  let ?w1 = "w\<lparr>sent := sent w @ [?rq]\<rparr>"
  from Suc.prems obtain r1 where r1: "http e (sent w) ?rq = Inr r1"
    by (cases "http e (sent w) ?rq") (auto simp: requests_post_eq)
  show ?case
  proof (cases "status_code r1 = 200")
    case True
    with Suc.prems r1 have "r = r1" "w' = ?w1" by (auto simp: requests_post_eq)
    with r1 show ?thesis by auto
  next
    case False
    with Suc.prems r1 have ns: "\<not> s < 0"
      by (auto simp: requests_post_eq sleep_def split: if_splits)
    let ?w2 = "?w1\<lparr>slept := slept ?w1 + s\<rparr>"
    from False ns Suc.prems r1 have "post_retry_loop n (Some r1) e u d s ?w2 = (Inr (Some r), w')"
      by (simp add: requests_post_eq sleep_def)
    from Suc.IH[OF this] r1 show ?thesis by auto
  qed
qed

lemma post_retry_loop_all_fail:
  assumes "0 \<le> s"
    and "\<forall>i<Suc n. \<exists>r. http e (sent w @ replicate i (post_request u d)) (post_request u d) = Inr r
            \<and> status_code r \<noteq> 200"
  shows "\<exists>rl w'. post_retry_loop (Suc n) r0 e u d s w = (Inr (Some rl), w')
           \<and> http e (sent w @ replicate n (post_request u d)) (post_request u d) = Inr rl
           \<and> status_code rl \<noteq> 200
           \<and> sent w' = sent w @ replicate (Suc n) (post_request u d)
           \<and> slept w' = slept w + int (Suc n) * s
           \<and> fs w' = fs w \<and> logged w' = logged w"
  using assms(2)
proof (induction n arbitrary: r0 w)
  case 0
  then obtain r where r: "http e (sent w) (post_request u d) = Inr r" "status_code r \<noteq> 200"
    by auto
  with assms(1) show ?case
    by (simp add: requests_post_eq sleep_def)
next
  case (Suc n)
  let ?rq = "post_request u d"
  from Suc.prems have "\<exists>r. http e (sent w @ replicate 0 ?rq) ?rq = Inr r \<and> status_code r \<noteq> 200"
    by blast
  then obtain r where r: "http e (sent w) ?rq = Inr r" "status_code r \<noteq> 200"
    by auto
  let ?w2 = "w\<lparr>sent := sent w @ [?rq], slept := slept w + s\<rparr>"
  have step: "post_retry_loop (Suc (Suc n)) r0 e u d s w = post_retry_loop (Suc n) (Some r) e u d s ?w2"
    using r assms(1)
    by (subst post_retry_loop.simps(2)) (simp add: requests_post_eq sleep_def del: post_retry_loop.simps)
  have "\<forall>i<Suc n. \<exists>r. http e (sent ?w2 @ replicate i ?rq) ?rq = Inr r \<and> status_code r \<noteq> 200"
  proof (intro allI impI)
    fix i assume "i < Suc n"
    then have "Suc i < Suc (Suc n)" by simp
    with Suc.prems have "\<exists>r. http e (sent w @ replicate (Suc i) ?rq) ?rq = Inr r \<and> status_code r \<noteq> 200"
      by blast
    then show "\<exists>r. http e (sent ?w2 @ replicate i ?rq) ?rq = Inr r \<and> status_code r \<noteq> 200"
      by simp
  qed
  from Suc.IH[OF this, of "Some r"] obtain rl w' where
    *: "post_retry_loop (Suc n) (Some r) e u d s ?w2 = (Inr (Some rl), w')"
       "http e (sent ?w2 @ replicate n ?rq) ?rq = Inr rl" "status_code rl \<noteq> 200"
       "sent w' = sent ?w2 @ replicate (Suc n) ?rq"
       "slept w' = slept ?w2 + int (Suc n) * s" "fs w' = fs ?w2" "logged w' = logged ?w2"
    by blast
  have "slept w' = slept w + int (Suc (Suc n)) * s"
    using *(5) by (simp add: algebra_simps)
  moreover have "http e (sent w @ replicate (Suc n) ?rq) ?rq = Inr rl" using *(2) by simp
  moreover have "sent w' = sent w @ replicate (Suc (Suc n)) ?rq" using *(4) by simp
  ultimately show ?case using step * by auto
qed

lemma post_retry_loop_first_ok:
  assumes "http e (sent w) (post_request u d) = Inr r" and "status_code r = 200"
  shows "post_retry_loop (Suc n) r0 e u d s w = (Inr (Some r), w\<lparr>sent := sent w @ [post_request u d]\<rparr>)"
  using assms by (simp add: requests_post_eq)

subsection \<open>The collection resolver\<close>

lemma get_collection_file_ids_Inr:
  assumes "get_collection_file_ids e collection_ids retries retry_seconds w = (Inr file_ids, w')"
  shows "\<exists>r collections.
           post_retry_loop (nat retries) None e get_collection_url
             (collection_data collection_ids) retry_seconds w = (Inr (Some r), w')
           \<and> status_code r = 200 \<and> json r = CollectionDetails collections
           \<and> file_ids = collect_file_ids collections []"
  using assms
  by (auto simp: get_collection_file_ids_def bind_io_def raise_io_def return_io_def
      split: prod.splits sum.splits option.splits if_splits payload.splits)

text \<open>
  C2. Whenever \<^verbatim>\<open>_get_collection_file_ids\<close> returns, its list holds each file id at
  most once, and it is the list of the ids of the children of the collections in the
  last response, in the order of their first occurrence.
\<close>

theorem resolve_membership_first_seen:
  assumes "get_collection_file_ids e collection_ids retries retry_seconds w = (Inr file_ids, w')"
  shows "distinct file_ids \<and>
    (\<exists>h r collections.
        sent w' = h @ [post_request get_collection_url (collection_data collection_ids)]
      \<and> http e h (post_request get_collection_url (collection_data collection_ids)) = Inr r
      \<and> json r = CollectionDetails collections
      \<and> file_ids =
          first_occurrences (concat (map (\<lambda>c. map publishedfileid (children c)) collections)))"
proof -
  from get_collection_file_ids_Inr[OF assms] obtain r collections where
    loop: "post_retry_loop (nat retries) None e get_collection_url
             (collection_data collection_ids) retry_seconds w = (Inr (Some r), w')"
    and r: "json r = CollectionDetails collections"
    and ids: "file_ids = collect_file_ids collections []"
    by blast
  from post_retry_loop_last[OF loop] obtain h where
    h: "sent w' = h @ [post_request get_collection_url (collection_data collection_ids)]"
       "http e h (post_request get_collection_url (collection_data collection_ids)) = Inr r"
    by auto
  have eq: "file_ids =
      first_occurrences (concat (map (\<lambda>c. map publishedfileid (children c)) collections))"
    using ids by (simp add: collect_file_ids_eq)
  then have "distinct file_ids" by (simp add: distinct_first_occurrences)
  with h r eq show ?thesis by blast
qed

lemma get_collection_file_ids_AB:
  "get_collection_file_ids env_collections_AB [''A'', ''B''] 5 5 world0 =
     (Inr [''42'', ''7''],
      world0\<lparr>sent := [post_request get_collection_url (collection_data [''A'', ''B''])]\<rparr>)"
  by (simp add: get_collection_file_ids_def bind_io_def return_io_def raise_io_def
      env_collections_AB_def collections_AB_def world0_def requests_post_def
      requests_request_def eval_nat_numeral)

theorem resolve_membership_first_seen_witness:
  "get_collection_file_ids env_collections_AB [''A'', ''B''] 5 5 world0 =
     (Inr [''42'', ''7''],
      world0\<lparr>sent := [post_request get_collection_url (collection_data [''A'', ''B''])]\<rparr>)
   \<and> distinct [''42'', ''7'']
   \<and> [''42'', ''7''] = first_occurrences [''42'', ''7'', ''42'']"
  using resolve_membership_first_seen [OF get_collection_file_ids_AB] get_collection_file_ids_AB
  by simp

subsection \<open>The file details\<close>

lemma file_info_loop_map_of:
  "map_of (file_info_loop fds result) k =
     (case map_of result k of
        Some v \<Rightarrow> Some v
      | None \<Rightarrow> map_option file_info_of (find (\<lambda>fd. pfd_publishedfileid fd = k) fds))"
proof (induction fds arbitrary: result)
  case Nil
  then show ?case by (simp split: option.splits)
next
  case (Cons fd fds)
  show ?case
    by (auto simp: Cons.IH map_add_def split: option.splits)
qed

lemma file_info_loop_keys:
  "map fst (file_info_loop fds result) =
     map fst result
     @ filter (\<lambda>k. k \<notin> set (map fst result)) (first_occurrences (map pfd_publishedfileid fds))"
proof (induction fds arbitrary: result)
  case Nil
  then show ?case by simp
next
  case (Cons fd fds)
  show ?case
  proof (cases "map_of result (pfd_publishedfileid fd) = None")
    case True
    then have "pfd_publishedfileid fd \<notin> fst ` set result"
      by (simp add: map_of_eq_None_iff)
    with True show ?thesis
      by (auto simp: Cons.IH removeAll_filter_not_eq intro: filter_cong)
  next
    case False
    then have "pfd_publishedfileid fd \<in> fst ` set result"
      by (simp add: map_of_eq_None_iff)
    with False show ?thesis
      by (auto simp: Cons.IH removeAll_filter_not_eq intro: filter_cong)
  qed
qed

lemma get_steam_file_info_Inr:
  assumes "get_steam_file_info e file_ids retries retry_seconds w = (Inr result, w')"
  shows "\<exists>r fds.
           post_retry_loop (nat retries) None e get_file_details_url
             (file_details_data file_ids) retry_seconds w = (Inr (Some r), w')
           \<and> status_code r = 200 \<and> json r = PublishedFileDetails fds
           \<and> result = file_info_loop fds []"
  using assms
  by (auto simp: get_steam_file_info_def bind_io_def raise_io_def return_io_def
      split: prod.splits sum.splits option.splits if_splits payload.splits)

lemma get_steam_file_info_parse:
  assumes "post_retry_loop (nat retries) None e get_file_details_url
             (file_details_data file_ids) retry_seconds w = (Inr (Some r), w')"
    and "status_code r = 200" and "json r = PublishedFileDetails fds"
  shows "get_steam_file_info e file_ids retries retry_seconds w = (Inr (file_info_loop fds []), w')"
  using assms
  by (simp add: get_steam_file_info_def bind_io_def raise_io_def return_io_def)

text \<open>
  C6. When the file-details response lists a file id more than once,
  \<^verbatim>\<open>_get_steam_file_info\<close> returns normally, and its dictionary holds each id once,
  in the order of first occurrence, with the metadata of the first entry that carries
  the id: later entries of the same id are dropped and nothing is merged.
\<close>

theorem fetch_details_first_occurrence_wins:
  "(post_retry_loop (nat retries) None e get_file_details_url
       (file_details_data file_ids) retry_seconds w = (Inr (Some r), w')
     \<and> status_code r = 200 \<and> json r = PublishedFileDetails fds
    \<longrightarrow> get_steam_file_info e file_ids retries retry_seconds w
          = (Inr (file_info_loop fds []), w'))
   \<and> distinct (map fst (file_info_loop fds []))
   \<and> map fst (file_info_loop fds []) = first_occurrences (map pfd_publishedfileid fds)
   \<and> (\<forall>k. map_of (file_info_loop fds []) k
            = map_option file_info_of (find (\<lambda>fd. pfd_publishedfileid fd = k) fds))"
  using get_steam_file_info_parse [of retries e file_ids retry_seconds w r w' fds]
  by (simp add: file_info_loop_keys file_info_loop_map_of distinct_first_occurrences)

lemma post_retry_loop_details_dup:
  "post_retry_loop (nat 5) None env_details_dup get_file_details_url
       (file_details_data [''42'']) 5 world0
   = (Inr (Some \<lparr>status_code = 200, content = [], headers = [],
                  json = PublishedFileDetails details_dup\<rparr>),
      world0\<lparr>sent := [post_request get_file_details_url (file_details_data [''42''])]\<rparr>)"
  by (simp add: env_details_dup_def world0_def requests_post_def requests_request_def
      eval_nat_numeral)

theorem fetch_details_first_occurrence_wins_witness:
  "get_steam_file_info env_details_dup [''42''] 5 5 world0
     = (Inr [(''42'', \<lparr>file_name = ''map.vpk'', file_size = 100, time_updated = 1000,
                       file_url = ''http://cdn/a''\<rparr>)],
        world0\<lparr>sent := [post_request get_file_details_url (file_details_data [''42''])]\<rparr>)"
  using fetch_details_first_occurrence_wins
    [of 5 env_details_dup "[''42'']" 5 world0
        "\<lparr>status_code = 200, content = [], headers = [], json = PublishedFileDetails details_dup\<rparr>"
        "world0\<lparr>sent := [post_request get_file_details_url (file_details_data [''42''])]\<rparr>"
        details_dup]
    post_retry_loop_details_dup
  by (simp add: details_dup_def file_info_of_def)

subsection \<open>Retries of the metadata client\<close>

lemma get_collection_file_ids_all_fail:
  assumes "1 \<le> retries" and "0 \<le> retry_seconds"
    and "\<forall>i<nat retries. \<exists>r.
           http e (sent w @ replicate i (collection_request collection_ids))
             (collection_request collection_ids) = Inr r \<and> status_code r \<noteq> 200"
  shows "\<exists>rl w'. get_collection_file_ids e collection_ids retries retry_seconds w
             = (Inl (CollectionIdsError retries get_collection_url (status_code rl) (content rl)), w')
           \<and> http e (sent w @ replicate (nat retries - 1) (collection_request collection_ids))
               (collection_request collection_ids) = Inr rl
           \<and> sent w' = sent w @ replicate (nat retries) (collection_request collection_ids)"
proof -
  from assms(1) obtain n where n: "nat retries = Suc n"
    by (cases "nat retries") auto
  from post_retry_loop_all_fail[OF assms(2), of n e w get_collection_url
      "collection_data collection_ids" None] assms(3) n
  obtain rl w' where
    "post_retry_loop (Suc n) None e get_collection_url (collection_data collection_ids)
       retry_seconds w = (Inr (Some rl), w')"
    "http e (sent w @ replicate n (collection_request collection_ids))
       (collection_request collection_ids) = Inr rl"
    "status_code rl \<noteq> 200"
    "sent w' = sent w @ replicate (Suc n) (collection_request collection_ids)"
    unfolding collection_request_def by auto
  then show ?thesis using n
    by (auto simp: get_collection_file_ids_def bind_io_def raise_io_def)
qed

lemma get_collection_file_ids_first_ok:
  assumes "1 \<le> retries"
    and "http e (sent w) (collection_request collection_ids) = Inr r"
    and "status_code r = 200" and "json r = CollectionDetails collections"
  shows "get_collection_file_ids e collection_ids retries retry_seconds w
           = (Inr (collect_file_ids collections []),
              w\<lparr>sent := sent w @ [collection_request collection_ids]\<rparr>)"
proof -
  from assms(1) obtain n where n: "nat retries = Suc n"
    by (cases "nat retries") auto
  from post_retry_loop_first_ok[of e w get_collection_url "collection_data collection_ids" r n
      None retry_seconds] assms(2,3)
  have "post_retry_loop (Suc n) None e get_collection_url (collection_data collection_ids)
       retry_seconds w = (Inr (Some r), w\<lparr>sent := sent w @ [collection_request collection_ids]\<rparr>)"
    unfolding collection_request_def by simp
  then show ?thesis using n assms(3,4)
    by (simp add: get_collection_file_ids_def bind_io_def raise_io_def return_io_def)
qed

lemma get_steam_file_info_all_fail:
  assumes "1 \<le> retries" and "0 \<le> retry_seconds"
    and "\<forall>i<nat retries. \<exists>r.
           http e (sent w @ replicate i (file_details_request file_ids))
             (file_details_request file_ids) = Inr r \<and> status_code r \<noteq> 200"
  shows "\<exists>rl w'. get_steam_file_info e file_ids retries retry_seconds w
             = (Inl (FileInfoError retries get_collection_url (status_code rl) (content rl)), w')
           \<and> http e (sent w @ replicate (nat retries - 1) (file_details_request file_ids))
               (file_details_request file_ids) = Inr rl
           \<and> sent w' = sent w @ replicate (nat retries) (file_details_request file_ids)"
proof -
  from assms(1) obtain n where n: "nat retries = Suc n"
    by (cases "nat retries") auto
  from post_retry_loop_all_fail[OF assms(2), of n e w get_file_details_url
      "file_details_data file_ids" None] assms(3) n
  obtain rl w' where
    "post_retry_loop (Suc n) None e get_file_details_url (file_details_data file_ids)
       retry_seconds w = (Inr (Some rl), w')"
    "http e (sent w @ replicate n (file_details_request file_ids))
       (file_details_request file_ids) = Inr rl"
    "status_code rl \<noteq> 200"
    "sent w' = sent w @ replicate (Suc n) (file_details_request file_ids)"
    unfolding file_details_request_def by auto
  then show ?thesis using n
    by (auto simp: get_steam_file_info_def bind_io_def raise_io_def)
qed

lemma get_steam_file_info_first_ok:
  assumes "1 \<le> retries"
    and "http e (sent w) (file_details_request file_ids) = Inr r"
    and "status_code r = 200" and "json r = PublishedFileDetails fds"
  shows "get_steam_file_info e file_ids retries retry_seconds w
           = (Inr (file_info_loop fds []),
              w\<lparr>sent := sent w @ [file_details_request file_ids]\<rparr>)"
proof -
  from assms(1) obtain n where n: "nat retries = Suc n"
    by (cases "nat retries") auto
  from post_retry_loop_first_ok[of e w get_file_details_url "file_details_data file_ids" r n
      None retry_seconds] assms(2,3)
  have "post_retry_loop (Suc n) None e get_file_details_url (file_details_data file_ids)
       retry_seconds w = (Inr (Some r), w\<lparr>sent := sent w @ [file_details_request file_ids]\<rparr>)"
    unfolding file_details_request_def by simp
  then show ?thesis using n assms(3,4)
    by (simp add: get_steam_file_info_def bind_io_def raise_io_def return_io_def)
qed

text \<open>
  C3, amended. For a retry budget of at least one and a retry delay that is not negative,
  each of the two metadata operations attempts exactly as many requests as the budget
  when every response has a status other than 200, and then fails with the error that
  carries the status code and the body of the last response; when the first response
  has status 200 it attempts exactly one request and returns what it builds from the
  parsed payload.
\<close>

theorem metadata_client_retry:
  assumes "1 \<le> retries" and "0 \<le> retry_seconds"
  shows
   "((\<forall>i<nat retries. \<exists>r.
         http e (sent w @ replicate i (collection_request ids)) (collection_request ids) = Inr r
         \<and> status_code r \<noteq> 200)
      \<longrightarrow> (\<exists>rl w'. get_collection_file_ids e ids retries retry_seconds w
                = (Inl (CollectionIdsError retries get_collection_url
                          (status_code rl) (content rl)), w')
              \<and> http e (sent w @ replicate (nat retries - 1) (collection_request ids))
                  (collection_request ids) = Inr rl
              \<and> sent w' = sent w @ replicate (nat retries) (collection_request ids)))
  \<and> (\<forall>r collections.
        http e (sent w) (collection_request ids) = Inr r \<and> status_code r = 200
        \<and> json r = CollectionDetails collections
      \<longrightarrow> get_collection_file_ids e ids retries retry_seconds w
            = (Inr (collect_file_ids collections []),
               w\<lparr>sent := sent w @ [collection_request ids]\<rparr>))
  \<and> ((\<forall>i<nat retries. \<exists>r.
         http e (sent w @ replicate i (file_details_request ids)) (file_details_request ids) = Inr r
         \<and> status_code r \<noteq> 200)
      \<longrightarrow> (\<exists>rl w'. get_steam_file_info e ids retries retry_seconds w
                = (Inl (FileInfoError retries get_collection_url
                          (status_code rl) (content rl)), w')
              \<and> http e (sent w @ replicate (nat retries - 1) (file_details_request ids))
                  (file_details_request ids) = Inr rl
              \<and> sent w' = sent w @ replicate (nat retries) (file_details_request ids)))
  \<and> (\<forall>r fds.
        http e (sent w) (file_details_request ids) = Inr r \<and> status_code r = 200
        \<and> json r = PublishedFileDetails fds
      \<longrightarrow> get_steam_file_info e ids retries retry_seconds w
            = (Inr (file_info_loop fds []),
               w\<lparr>sent := sent w @ [file_details_request ids]\<rparr>))"
proof (intro conjI impI allI)
  assume "\<forall>i<nat retries. \<exists>r.
         http e (sent w @ replicate i (collection_request ids)) (collection_request ids) = Inr r
         \<and> status_code r \<noteq> 200"
  from get_collection_file_ids_all_fail[OF assms this]
  show "\<exists>rl w'. get_collection_file_ids e ids retries retry_seconds w
                = (Inl (CollectionIdsError retries get_collection_url
                          (status_code rl) (content rl)), w')
              \<and> http e (sent w @ replicate (nat retries - 1) (collection_request ids))
                  (collection_request ids) = Inr rl
              \<and> sent w' = sent w @ replicate (nat retries) (collection_request ids)" .
next
  fix r collections
  assume "http e (sent w) (collection_request ids) = Inr r \<and> status_code r = 200
        \<and> json r = CollectionDetails collections"
  then show "get_collection_file_ids e ids retries retry_seconds w
            = (Inr (collect_file_ids collections []),
               w\<lparr>sent := sent w @ [collection_request ids]\<rparr>)"
    using get_collection_file_ids_first_ok[OF assms(1)] by blast
next
  assume "\<forall>i<nat retries. \<exists>r.
         http e (sent w @ replicate i (file_details_request ids)) (file_details_request ids) = Inr r
         \<and> status_code r \<noteq> 200"
  from get_steam_file_info_all_fail[OF assms this]
  show "\<exists>rl w'. get_steam_file_info e ids retries retry_seconds w
                = (Inl (FileInfoError retries get_collection_url
                          (status_code rl) (content rl)), w')
              \<and> http e (sent w @ replicate (nat retries - 1) (file_details_request ids))
                  (file_details_request ids) = Inr rl
              \<and> sent w' = sent w @ replicate (nat retries) (file_details_request ids)" .
next
  fix r fds
  assume "http e (sent w) (file_details_request ids) = Inr r \<and> status_code r = 200
        \<and> json r = PublishedFileDetails fds"
  then show "get_steam_file_info e ids retries retry_seconds w
            = (Inr (file_info_loop fds []),
               w\<lparr>sent := sent w @ [file_details_request ids]\<rparr>)"
    using get_steam_file_info_first_ok[OF assms(1)] by blast
qed

theorem metadata_client_retry_witness:
  "get_collection_file_ids env_unavailable [''A''] 5 5 world0
     = (Inl (CollectionIdsError 5 get_collection_url 500 ''busy''),
        world0\<lparr>sent := replicate 5 (collection_request [''A'']), slept := 25\<rparr>)
   \<and> get_steam_file_info env_unavailable [''42''] 5 5 world0
     = (Inl (FileInfoError 5 get_collection_url 500 ''busy''),
        world0\<lparr>sent := replicate 5 (file_details_request [''42'']), slept := 25\<rparr>)
   \<and> get_collection_file_ids env_collections_AB [''A''] 5 5 world0
     = (Inr [''42'', ''7''], world0\<lparr>sent := [collection_request [''A'']]\<rparr>)
   \<and> get_steam_file_info env_details_dup [''42''] 5 5 world0
     = (Inr (file_info_loop details_dup []), world0\<lparr>sent := [file_details_request [''42'']]\<rparr>)"
  using metadata_client_retry [of 5 5 env_unavailable world0 "[''A'']"]
    metadata_client_retry [of 5 5 env_unavailable world0 "[''42'']"]
    metadata_client_retry [of 5 5 env_collections_AB world0 "[''A'']"]
    metadata_client_retry [of 5 5 env_details_dup world0 "[''42'']"]
  by (simp add: env_unavailable_def response_busy_def env_collections_AB_def env_details_dup_def
      collections_AB_def world0_def get_collection_file_ids_def get_steam_file_info_def
      bind_io_def raise_io_def return_io_def requests_post_def requests_request_def sleep_def
      collection_request_def file_details_request_def eval_nat_numeral)

text \<open>
  With a budget of zero no request is attempted and \<^verbatim>\<open>resp\<close> is never bound: the
  failure is an \<^verbatim>\<open>UnboundLocalError\<close>, which carries no status code and no body. With a
  negative delay the first wait fails, after one request.
\<close>

theorem metadata_client_zero_budget:
  "get_collection_file_ids env_unavailable [''A''] 0 5 world0
     = (Inl (UnboundLocalError ''resp''), world0)
   \<and> get_steam_file_info env_unavailable [''42''] 0 5 world0
     = (Inl (UnboundLocalError ''resp''), world0)
   \<and> get_collection_file_ids env_unavailable [''A''] 5 (- 1) world0
     = (Inl (ValueError ''sleep length must be non-negative''),
        world0\<lparr>sent := [collection_request [''A'']]\<rparr>)"
  by (simp add: get_collection_file_ids_def get_steam_file_info_def bind_io_def raise_io_def
      requests_post_eq env_unavailable_def response_busy_def sleep_def world0_def
      collection_request_def eval_nat_numeral)

lemma str_nat_0: "str_nat 0 = ''0''"
  by code_simp

lemma str_nat_100: "str_nat 100 = ''100''"
  by code_simp

lemma get_collection_file_ids_world:
  "snd (get_collection_file_ids e collection_ids retries retry_seconds w)
     = snd (post_retry_loop (nat retries) None e get_collection_url
              (collection_data collection_ids) retry_seconds w)"
  by (simp add: get_collection_file_ids_def bind_io_def raise_io_def return_io_def
      split: prod.splits sum.splits option.splits payload.splits)

text \<open>
  C10. For an empty list of collection ids (and a retry budget of at least one, as the
  default five is), \<^verbatim>\<open>_get_collection_file_ids\<close> attempts at least one request, and
  every request it attempts has the single form field \<^verbatim>\<open>collectioncount = "0"\<close> and no
  \<^verbatim>\<open>publishedfileids\<close> field.
\<close>

theorem empty_collection_ids_still_requests:
  assumes "1 \<le> retries"
  shows "\<exists>k. 1 \<le> k \<and> k \<le> nat retries
     \<and> sent (snd (get_collection_file_ids e [] retries retry_seconds w))
         = sent w @ replicate k \<lparr>rmethod = POST, rurl = get_collection_url,
                                   rdata = [(''collectioncount'', ''0'')]\<rparr>"
proof -
  obtain res w' where loop: "post_retry_loop (nat retries) None e get_collection_url
      (collection_data []) retry_seconds w = (res, w')"
    by (cases "post_retry_loop (nat retries) None e get_collection_url
      (collection_data []) retry_seconds w") auto
  from post_retry_loop_sent[OF loop] assms obtain k where
    "k \<le> nat retries" "0 < k"
    "sent w' = sent w @ replicate k (post_request get_collection_url (collection_data []))"
    by auto
  then show ?thesis using loop
    by (auto simp: get_collection_file_ids_world collection_data_def str_nat_0 post_request_def
        intro!: exI[of _ k])
qed

theorem empty_collection_ids_still_requests_witness:
  "sent (snd (get_collection_file_ids env_collections_AB [] 5 5 world0))
     = [\<lparr>rmethod = POST, rurl = get_collection_url, rdata = [(''collectioncount'', ''0'')]\<rparr>]
   \<and> fst (get_collection_file_ids env_collections_AB [] 5 5 world0) = Inr [''42'', ''7'']"
  using empty_collection_ids_still_requests [of 5 env_collections_AB 5 world0]
  by (simp add: env_collections_AB_def collections_AB_def world0_def get_collection_file_ids_def
      bind_io_def raise_io_def return_io_def requests_post_def requests_request_def
      collection_data_def str_nat_0 post_request_def eval_nat_numeral)

subsection \<open>The change-detection loop and the bulk fetcher\<close>

lemma path_suffix_vpk: "path_suffix ''map.vpk'' = ''.vpk''" "path_suffix ''other.vpk'' = ''.vpk''"
  by (simp_all add: path_suffix_def path_name_def)

lemma requests_get_eq:
  "requests_get e u w = (http e (sent w) (get_request u), w\<lparr>sent := sent w @ [get_request u]\<rparr>)"
  by (simp add: requests_get_def requests_request_def)

lemma write_file_frame:
  "sent (snd (write_file e fp body w)) = sent w"
  "logged (snd (write_file e fp body w)) = logged w"
  "q \<noteq> fp \<Longrightarrow> fs (snd (write_file e fp body w)) q = fs w q"
  by (auto simp: write_file_def split: option.splits)

lemma download_file_eq:
  "download_file e url fp w =
     (case http e (sent w) (get_request url) of
        Inl err \<Rightarrow> (Inl err, w\<lparr>sent := sent w @ [get_request url]\<rparr>)
      | Inr r \<Rightarrow>
          if 400 \<le> status_code r \<and> status_code r < 600
          then (Inl (HTTPError (status_code r)), w\<lparr>sent := sent w @ [get_request url]\<rparr>)
          else write_file e fp (content r) (w\<lparr>sent := sent w @ [get_request url]\<rparr>))"
  by (simp add: download_file_def bind_io_def requests_get_eq raise_for_status_def
      raise_io_def return_io_def split: sum.splits)

lemma download_file_frame:
  "sent (snd (download_file e url fp w)) = sent w @ [get_request url]"
  "logged (snd (download_file e url fp w)) = logged w"
  "q \<noteq> fp \<Longrightarrow> fs (snd (download_file e url fp w)) q = fs w q"
  by (auto simp: download_file_eq write_file_frame split: sum.splits)

lemma download_entry_skip:
  "already_exists w (file_path_of p k details) details \<Longrightarrow>
   download_entry e p (k, details) w
     = (Inr (), w\<lparr>logged := logged w @ [LogSkipping (file_name details)]\<rparr>)"
  by (simp add: download_entry_def log_msg_def)

lemma download_entry_fetch:
  "\<not> already_exists w (file_path_of p k details) details \<Longrightarrow>
   download_entry e p (k, details) w
     = download_file e (file_url details) (file_path_of p k details)
         (w\<lparr>logged := logged w @ [LogDownloading (file_name details)]\<rparr>)"
  by (simp add: download_entry_def log_msg_def bind_io_def)

text \<open>
  C1. For an entry of the metadata mapping whose destination path exists, the loop of
  \<^verbatim>\<open>download_collections\<close> attempts no download exactly when the local size equals the
  remote \<^verbatim>\<open>file_size\<close> or the local modification time is strictly greater than the
  remote \<^verbatim>\<open>time_updated\<close>; otherwise it attempts the download of the entry's URL.
\<close>

theorem skip_predicate:
  assumes "fs w (file_path_of p k details) = Some st"
  shows "sent (snd (download_entry e p (k, details) w)) =
           (if int (st_size st) = file_size details
               \<or> real_of_int (time_updated details) < st_mtime st
            then sent w
            else sent w @ [get_request (file_url details)])
       \<and> (int (st_size st) = file_size details
            \<or> real_of_int (time_updated details) < st_mtime st
          \<longrightarrow> download_entry e p (k, details) w
                = (Inr (), w\<lparr>logged := logged w @ [LogSkipping (file_name details)]\<rparr>))"
proof (cases "already_exists w (file_path_of p k details) details")
  case True
  with assms have "int (st_size st) = file_size details
               \<or> real_of_int (time_updated details) < st_mtime st"
    by (simp add: already_exists_def)
  with True show ?thesis by (simp add: download_entry_skip)
next
  case False
  with assms have "\<not> (int (st_size st) = file_size details
               \<or> real_of_int (time_updated details) < st_mtime st)"
    by (simp add: already_exists_def)
  with False show ?thesis by (simp add: download_entry_fetch download_file_frame)
qed

lemma file_path_of_examples:
  "file_path_of [''addons''] ''42'' info_map = [''addons'', ''42.vpk'']"
  "file_path_of [''addons''] ''43'' info_other = [''addons'', ''43.vpk'']"
  "file_path_of [''addons''] ''44'' info_other = [''addons'', ''44.vpk'']"
  by (simp_all add: file_path_of_def info_map_def info_other_def path_suffix_vpk)

theorem skip_predicate_witness:
  "fs world_installed (file_path_of [''addons''] ''42'' info_map)
     = Some \<lparr>is_dir = False, st_size = 100, st_mtime = 1000\<rparr>
   \<and> sent (snd (download_entry env_not_found [''addons''] (''42'', info_map) world_installed)) = []
   \<and> fs world_installed (file_path_of [''addons''] ''43'' info_other)
     = Some \<lparr>is_dir = False, st_size = 9, st_mtime = 1000\<rparr>
   \<and> sent (snd (download_entry env_not_found [''addons''] (''43'', info_other) world_installed))
     = [get_request ''http://cdn/other'']"
  using skip_predicate [of world_installed "[''addons'']" "''42''" info_map
      "\<lparr>is_dir = False, st_size = 100, st_mtime = 1000\<rparr>" env_not_found]
    skip_predicate [of world_installed "[''addons'']" "''43''" info_other
      "\<lparr>is_dir = False, st_size = 9, st_mtime = 1000\<rparr>" env_not_found]
  unfolding file_path_of_examples
  by (simp add: world_installed_def info_map_def info_other_def)




subsection \<open>The install path and the requests of a run\<close>




lemma download_loop_requests:
  "\<exists>planned. sent (snd (download_loop e p es w))
       = sent w @ map (\<lambda>kd. get_request (file_url (snd kd))) planned
     \<and> set planned \<subseteq> set es"
proof (induction es arbitrary: w)
  case Nil
  show ?case by (rule exI[of _ "[]"]) simp
next
  case (Cons kd es)
  obtain k details where kd: "kd = (k, details)" by (cases kd)
  show ?case
  proof (cases "already_exists w (file_path_of p k details) details")
    case True
    let ?w' = "w\<lparr>logged := logged w @ [LogSkipping (file_name details)]\<rparr>"
    from Cons.IH[of ?w'] obtain planned where
      "sent (snd (download_loop e p es ?w'))
         = sent ?w' @ map (\<lambda>kd. get_request (file_url (snd kd))) planned"
      "set planned \<subseteq> set es" by blast
    with True kd show ?thesis
      by (intro exI[of _ planned]) (auto simp: download_entry_skip)
  next
    case False
    let ?w0 = "w\<lparr>logged := logged w @ [LogDownloading (file_name details)]\<rparr>"
    obtain res w' where df: "download_file e (file_url details) (file_path_of p k details) ?w0
        = (res, w')"
      by (cases "download_file e (file_url details) (file_path_of p k details) ?w0") auto
    have sw': "sent w' = sent w @ [get_request (file_url details)]"
      using download_file_frame(1)[of e "file_url details" "file_path_of p k details" ?w0] df
      by simp
    show ?thesis
    proof (cases res)
      case (Inl err)
      with False kd df sw' show ?thesis
        by (intro exI[of _ "[kd]"]) (simp add: download_entry_fetch)
    next
      case (Inr u)
      from Cons.IH[of w'] obtain planned where
        "sent (snd (download_loop e p es w'))
           = sent w' @ map (\<lambda>kd. get_request (file_url (snd kd))) planned"
        "set planned \<subseteq> set es" by blast
      with Inr False kd df sw' show ?thesis
        by (intro exI[of _ "kd # planned"]) (auto simp: download_entry_fetch)
    qed
  qed
qed






subsection \<open>The URLs of the planned downloads\<close>

lemma file_info_loop_distinct: "distinct (map fst (file_info_loop fds []))"
  by (simp add: file_info_loop_keys distinct_first_occurrences)

lemma file_info_loop_entry:
  assumes "kd \<in> set (file_info_loop fds [])"
  shows "\<exists>fd\<in>set fds. find (\<lambda>x. pfd_publishedfileid x = fst kd) fds = Some fd
           \<and> snd kd = file_info_of fd"
proof -
  from assms have "(fst kd, snd kd) \<in> set (file_info_loop fds [])" by simp
  with file_info_loop_distinct[of fds]
  have "map_of (file_info_loop fds []) (fst kd) = Some (snd kd)"
    by (rule map_of_is_SomeI)
  then have "map_option file_info_of (find (\<lambda>x. pfd_publishedfileid x = fst kd) fds)
      = Some (snd kd)"
    by (simp add: file_info_loop_map_of)
  then obtain fd where fd: "find (\<lambda>x. pfd_publishedfileid x = fst kd) fds = Some fd"
    "snd kd = file_info_of fd" by auto
  from fd(1) have "fd \<in> set fds"
    by (auto simp: find_Some_iff)
  with fd show ?thesis by blast
qed

text \<open>
  C5, amended. Every entry that the loop of \<^verbatim>\<open>download_collections\<close> passes to the bulk
  fetcher carries the metadata of the first response entry for its file id, and the URL
  requested is that entry's \<^verbatim>\<open>file_url\<close>; it is non-empty whenever every
  \<^verbatim>\<open>file_url\<close> of the response is non-empty.
\<close>

theorem planned_urls_come_from_response:
  "\<exists>planned.
      sent (snd (download_loop e p (file_info_loop fds []) w))
        = sent w @ map (\<lambda>kd. get_request (file_url (snd kd))) planned
    \<and> (\<forall>kd\<in>set planned. \<exists>fd\<in>set fds.
          find (\<lambda>x. pfd_publishedfileid x = fst kd) fds = Some fd
          \<and> snd kd = file_info_of fd \<and> file_url (snd kd) = pfd_file_url fd)
    \<and> ((\<forall>fd\<in>set fds. pfd_file_url fd \<noteq> [])
         \<longrightarrow> (\<forall>kd\<in>set planned. file_url (snd kd) \<noteq> []))"
proof -
  from download_loop_requests[of e p "file_info_loop fds []" w] obtain planned where
    pl: "sent (snd (download_loop e p (file_info_loop fds []) w))
        = sent w @ map (\<lambda>kd. get_request (file_url (snd kd))) planned"
    "set planned \<subseteq> set (file_info_loop fds [])" by blast
  have ent: "\<forall>kd\<in>set planned. \<exists>fd\<in>set fds.
          find (\<lambda>x. pfd_publishedfileid x = fst kd) fds = Some fd
          \<and> snd kd = file_info_of fd \<and> file_url (snd kd) = pfd_file_url fd"
  proof
    fix kd assume "kd \<in> set planned"
    with pl(2) have "kd \<in> set (file_info_loop fds [])" by blast
    from file_info_loop_entry[OF this]
    show "\<exists>fd\<in>set fds. find (\<lambda>x. pfd_publishedfileid x = fst kd) fds = Some fd
          \<and> snd kd = file_info_of fd \<and> file_url (snd kd) = pfd_file_url fd"
      by (auto simp: file_info_of_def)
  qed
  then have "(\<forall>fd\<in>set fds. pfd_file_url fd \<noteq> [])
         \<longrightarrow> (\<forall>kd\<in>set planned. file_url (snd kd) \<noteq> [])"
    by metis
  with pl(1) ent show ?thesis by blast
qed

theorem planned_urls_come_from_response_witness:
  "list_all (\<lambda>fd. pfd_file_url fd \<noteq> []) details_dup
   \<and> (\<exists>planned :: (string \<times> file_info) list.
        sent (snd (download_loop env_not_found [''addons''] (file_info_loop details_dup [])
                     world_empty_dir))
          = map (\<lambda>kd. get_request (file_url (snd kd))) planned
      \<and> list_all (\<lambda>kd. file_url (snd kd) \<noteq> []) planned)"
proof -
  have urls: "\<forall>fd\<in>set details_dup. pfd_file_url fd \<noteq> []"
    by (simp add: details_dup_def)
  have nothing_sent: "sent world_empty_dir = []"
    by (simp add: world_empty_dir_def)
  from planned_urls_come_from_response [of env_not_found "[''addons'']" details_dup world_empty_dir]
  obtain planned where
    pl: "sent (snd (download_loop env_not_found [''addons''] (file_info_loop details_dup [])
                     world_empty_dir))
          = sent world_empty_dir @ map (\<lambda>kd. get_request (file_url (snd kd))) planned"
    and "\<forall>kd\<in>set planned. \<exists>fd\<in>set details_dup.
          find (\<lambda>x. pfd_publishedfileid x = fst kd) details_dup = Some fd
          \<and> snd kd = file_info_of fd \<and> file_url (snd kd) = pfd_file_url fd"
    and ne: "(\<forall>fd\<in>set details_dup. pfd_file_url fd \<noteq> [])
         \<longrightarrow> (\<forall>kd\<in>set planned. file_url (snd kd) \<noteq> [])"
    by blast
  from ne urls have "list_all (\<lambda>kd. file_url (snd kd) \<noteq> []) planned"
    by (simp add: list_all_iff)
  moreover from pl nothing_sent
  have "sent (snd (download_loop env_not_found [''addons''] (file_info_loop details_dup [])
                     world_empty_dir))
          = map (\<lambda>kd. get_request (file_url (snd kd))) planned"
    by simp
  moreover from urls have "list_all (\<lambda>fd. pfd_file_url fd \<noteq> []) details_dup"
    by (simp add: list_all_iff)
  ultimately show ?thesis by (auto intro!: exI[of _ planned])
qed

lemma env_no_url_http:
  "http env_no_url h (collection_request ids)
     = Inr \<lparr>status_code = 200, content = [], headers = [],
             json = CollectionDetails [\<lparr>children = [\<lparr>publishedfileid = ''42''\<rparr>]\<rparr>]\<rparr>"
  "http env_no_url h (file_details_request ids)
     = Inr \<lparr>status_code = 200, content = [], headers = [],
             json = PublishedFileDetails details_no_url\<rparr>"
  "http env_no_url h (get_request []) = Inl (RequestException ''MissingSchema'')"
  by (simp_all add: env_no_url_def collection_request_def file_details_request_def
      post_request_def get_request_def get_collection_url_def get_file_details_url_def)

text \<open>
  The code makes no check of the URL: a response entry with an empty \<^verbatim>\<open>file_url\<close> is
  planned, and the fetcher is called with the empty URL.
\<close>

theorem plan_contains_empty_url:
  "sent (snd (download_collections env_no_url [''A''] [''addons''] world_empty_dir))
     = [collection_request [''A''], file_details_request [''42''], get_request []]
   \<and> fst (download_collections env_no_url [''A''] [''addons''] world_empty_dir)
     = Inl (RequestException ''MissingSchema'')"
proof -
  note ids = get_collection_file_ids_first_ok
    [where e = env_no_url and collections = "[\<lparr>children = [\<lparr>publishedfileid = ''42''\<rparr>]\<rparr>]"
       and r = "\<lparr>status_code = 200, content = [], headers = [],
                 json = CollectionDetails [\<lparr>children = [\<lparr>publishedfileid = ''42''\<rparr>]\<rparr>]\<rparr>"]
  note info = get_steam_file_info_first_ok
    [where e = env_no_url and fds = details_no_url
       and r = "\<lparr>status_code = 200, content = [], headers = [],
                 json = PublishedFileDetails details_no_url\<rparr>"]
  have entries: "file_info_loop details_no_url []
      = [(''42'', \<lparr>file_name = ''map.vpk'', file_size = 100, time_updated = 5000,
                    file_url = []\<rparr>)]"
    by (simp add: details_no_url_def file_info_of_def)
  show ?thesis
    by (simp add: download_collections_def resolve_and_download_def bind_io_def
        check_install_path_def path_exists_def path_is_dir_def ids info env_no_url_http
        log_msg_def entries download_entry_def already_exists_def file_path_of_def
        path_suffix_vpk download_file_eq world_empty_dir_def dir_node_def)
qed

subsection \<open>Running the loop twice\<close>

lemma already_exists_cong:
  "fs w1 q = fs w2 q \<Longrightarrow> already_exists w1 q d = already_exists w2 q d"
  by (simp add: already_exists_def)

lemma download_entry_fs_other:
  assumes "q \<noteq> dest_path p kd"
  shows "fs (snd (download_entry e p kd w)) q = fs w q"
proof -
  obtain k details where kd: "kd = (k, details)" by (cases kd)
  with assms have q: "q \<noteq> file_path_of p k details" by (simp add: dest_path_def)
  show ?thesis
  proof (cases "already_exists w (file_path_of p k details) details")
    case True
    then show ?thesis by (simp add: kd download_entry_skip)
  next
    case False
    then show ?thesis using q by (simp add: kd download_entry_fetch download_file_frame)
  qed
qed

lemma download_loop_fs_other:
  "q \<notin> dest_path p ` set es \<Longrightarrow> fs (snd (download_loop e p es w)) q = fs w q"
proof (induction es arbitrary: w)
  case Nil
  then show ?case by simp
next
  case (Cons kd es)
  obtain res w' where de: "download_entry e p kd w = (res, w')"
    by (cases "download_entry e p kd w") auto
  from Cons.prems have "q \<noteq> dest_path p kd" by auto
  from download_entry_fs_other[OF this, of e w] de have w': "fs w' q = fs w q" by simp
  from Cons.prems have "q \<notin> dest_path p ` set es" by auto
  from Cons.IH[OF this, of w'] w' de show ?case
    by (cases res) auto
qed

lemma download_loop_skipped_unchanged:
  assumes "distinct (map (dest_path p) es)" and "kd \<in> set es"
    and "already_exists w (dest_path p kd) (snd kd)"
  shows "fs (snd (download_loop e p es w)) (dest_path p kd) = fs w (dest_path p kd)"
  using assms
proof (induction es arbitrary: w)
  case Nil
  then show ?case by simp
next
  case (Cons x es)
  show ?case
  proof (cases "kd = x")
    case True
    let ?w' = "w\<lparr>logged := logged w @ [LogSkipping (file_name (snd kd))]\<rparr>"
    from Cons.prems(3) have "download_entry e p (fst kd, snd kd) w = (Inr (), ?w')"
      by (intro download_entry_skip) (simp add: dest_path_def)
    then have de: "download_entry e p x w = (Inr (), ?w')" using True by simp
    from Cons.prems(1) True have "dest_path p kd \<notin> dest_path p ` set es" by auto
    from download_loop_fs_other[OF this, of e ?w'] de show ?thesis by simp
  next
    case False
    with Cons.prems(2) have mem: "kd \<in> set es" by simp
    from Cons.prems(1) have "dest_path p x \<notin> dest_path p ` set es" by simp
    with mem have ne: "dest_path p kd \<noteq> dest_path p x" by (metis imageI)
    obtain res w' where de: "download_entry e p x w = (res, w')"
      by (cases "download_entry e p x w") auto
    from download_entry_fs_other[OF ne, of e w] de
    have w': "fs w' (dest_path p kd) = fs w (dest_path p kd)" by simp
    with Cons.prems(3) have "already_exists w' (dest_path p kd) (snd kd)"
      by (simp add: already_exists_cong[of w' _ w])
    from Cons.IH[OF _ mem this] Cons.prems(1)
    have "fs (snd (download_loop e p es w')) (dest_path p kd) = fs w' (dest_path p kd)" by simp
    with w' de show ?thesis by (cases res) auto
  qed
qed

lemma download_loop_all_up_to_date:
  assumes "\<forall>kd\<in>set es. already_exists w (dest_path p kd) (snd kd)"
  shows "\<exists>w2. download_loop e p es w = (Inr (), w2)
           \<and> sent w2 = sent w \<and> fs w2 = fs w \<and> slept w2 = slept w"
  using assms
proof (induction es arbitrary: w)
  case Nil
  then show ?case by simp
next
  case (Cons x es)
  let ?w' = "w\<lparr>logged := logged w @ [LogSkipping (file_name (snd x))]\<rparr>"
  from Cons.prems have "already_exists w (dest_path p x) (snd x)" by simp
  then have "download_entry e p (fst x, snd x) w = (Inr (), ?w')"
    by (intro download_entry_skip) (simp add: dest_path_def)
  then have de: "download_entry e p x w = (Inr (), ?w')" by simp
  have "\<forall>kd\<in>set es. already_exists ?w' (dest_path p kd) (snd kd)"
    using Cons.prems by (simp add: already_exists_def)
  from Cons.IH[OF this] de show ?case by auto
qed

text \<open>
  C7. Let a first run of the loop over the metadata mapping end normally, the
  destination paths of the entries being pairwise distinct, and let every file that the
  first run had to download have, after it, an on-disk size equal to its remote
  \<^verbatim>\<open>file_size\<close>. Then a second run over the same mapping, whatever the remote does,
  ends normally with no request attempted and the file system unchanged.
\<close>

theorem second_run_plans_nothing:
  assumes "distinct (map (dest_path p) file_details)"
    and "download_loop e p file_details w0 = (Inr (), w1)"
    and "\<forall>kd\<in>set file_details.
           \<not> already_exists w0 (dest_path p kd) (snd kd) \<longrightarrow>
           (\<exists>st. fs w1 (dest_path p kd) = Some st \<and> int (st_size st) = file_size (snd kd))"
  shows "\<exists>w2. download_loop e2 p file_details w1 = (Inr (), w2)
           \<and> sent w2 = sent w1 \<and> fs w2 = fs w1"
proof -
  have "\<forall>kd\<in>set file_details. already_exists w1 (dest_path p kd) (snd kd)"
  proof
    fix kd assume mem: "kd \<in> set file_details"
    show "already_exists w1 (dest_path p kd) (snd kd)"
    proof (cases "already_exists w0 (dest_path p kd) (snd kd)")
      case True
      from download_loop_skipped_unchanged[OF assms(1) mem True, of e] assms(2)
      have "fs w1 (dest_path p kd) = fs w0 (dest_path p kd)" by simp
      with True show ?thesis by (simp add: already_exists_cong[of w1 _ w0])
    next
      case False
      with assms(3) mem obtain st where
        "fs w1 (dest_path p kd) = Some st" "int (st_size st) = file_size (snd kd)" by blast
      then show ?thesis by (simp add: already_exists_def)
    qed
  qed
  from download_loop_all_up_to_date[OF this, of e2] show ?thesis by blast
qed

lemma first_run_example:
  "download_loop env_serving [''addons''] [(''42'', info_map)] world_empty_dir
     = (Inr (), world_after_first_run)"
proof -
  have "\<not> already_exists world_empty_dir (file_path_of [''addons''] ''42'' info_map) info_map"
    unfolding file_path_of_examples
    by (simp add: already_exists_def world_empty_dir_def)
  from download_entry_fetch[OF this, of env_serving] show ?thesis
    unfolding file_path_of_examples
    by (simp add: download_file_eq env_serving_def write_file_def path_is_dir_def
        world_empty_dir_def world_after_first_run_def info_map_def dir_node_def)
qed

theorem second_run_plans_nothing_witness:
  "download_loop env_serving [''addons''] [(''42'', info_map)] world_empty_dir
     = (Inr (), world_after_first_run)
   \<and> fst (download_loop env_not_found [''addons''] [(''42'', info_map)] world_after_first_run)
     = Inr ()
   \<and> sent (snd (download_loop env_not_found [''addons''] [(''42'', info_map)]
                   world_after_first_run))
     = [get_request ''http://cdn/map'']"
proof -
  have d: "distinct (map (dest_path [''addons'']) [(''42'', info_map)])" by simp
  have sizes: "\<forall>kd\<in>set [(''42'', info_map)].
      \<not> already_exists world_empty_dir (dest_path [''addons''] kd) (snd kd) \<longrightarrow>
      (\<exists>st. fs world_after_first_run (dest_path [''addons''] kd) = Some st
         \<and> int (st_size st) = file_size (snd kd))"
  proof -
    have node: "fs world_after_first_run (file_path_of [''addons''] ''42'' info_map)
        = Some \<lparr>is_dir = False, st_size = 100, st_mtime = 9000\<rparr>"
      unfolding file_path_of_examples by (simp add: world_after_first_run_def)
    have size: "file_size info_map = 100" by (simp add: info_map_def)
    show ?thesis by (simp add: dest_path_def node size)
  qed
  from second_run_plans_nothing[OF d first_run_example sizes, of env_not_found]
  obtain w2 where "download_loop env_not_found [''addons''] [(''42'', info_map)]
      world_after_first_run = (Inr (), w2)" "sent w2 = sent world_after_first_run"
    by blast
  then show ?thesis using first_run_example
    by (simp add: world_after_first_run_def)
qed

text \<open>
  File ids without a dot, as the numeric ids of the Workshop are, have pairwise distinct
  destination paths.
\<close>

lemma path_suffix_shape: "path_suffix s = [] \<or> (\<exists>ext. path_suffix s = CHR ''.'' # ext)"
  by (simp add: path_suffix_def Let_def)

lemma takeWhile_no_dot:
  assumes "CHR ''.'' \<notin> set k"
  shows "takeWhile (\<lambda>c. c \<noteq> CHR ''.'') (k @ path_suffix s) = k"
proof -
  from assms have all: "\<forall>c\<in>set k. c \<noteq> CHR ''.''" by auto
  from path_suffix_shape[of s] show ?thesis
  proof
    assume "path_suffix s = []"
    with all show ?thesis by (simp add: takeWhile_eq_all_conv)
  next
    assume "\<exists>ext. path_suffix s = CHR ''.'' # ext"
    then obtain ext where "path_suffix s = CHR ''.'' # ext" by blast
    with all show ?thesis by (simp add: takeWhile_append2)
  qed
qed

lemma file_path_of_inj:
  assumes "CHR ''.'' \<notin> set k1" and "CHR ''.'' \<notin> set k2"
    and "file_path_of p k1 d1 = file_path_of p k2 d2"
  shows "k1 = k2"
proof -
  from assms(3) have "k1 @ path_suffix (file_name d1) = k2 @ path_suffix (file_name d2)"
    by (simp add: file_path_of_def)
  then have "takeWhile (\<lambda>c. c \<noteq> CHR ''.'') (k1 @ path_suffix (file_name d1))
      = takeWhile (\<lambda>c. c \<noteq> CHR ''.'') (k2 @ path_suffix (file_name d2))" by simp
  with assms(1,2) show ?thesis by (simp add: takeWhile_no_dot)
qed

lemma dest_paths_distinct:
  assumes "distinct (map fst es)" and "\<forall>kd\<in>set es. CHR ''.'' \<notin> set (fst kd)"
  shows "distinct (map (dest_path p) es)"
  using assms
proof (induction es)
  case Nil
  then show ?case by simp
next
  case (Cons x es)
  have "dest_path p x \<notin> dest_path p ` set es"
  proof
    assume "dest_path p x \<in> dest_path p ` set es"
    then obtain y where y: "y \<in> set es" "dest_path p x = dest_path p y" by auto
    with Cons.prems(2) have "fst x = fst y"
      by (intro file_path_of_inj[of "fst x" "fst y" p "snd x" "snd y"]) (auto simp: dest_path_def)
    with y(1) Cons.prems(1) show False by (metis distinct.simps(2) imageI list.simps(9) set_map)
  qed
  with Cons show ?case by simp
qed

subsection \<open>The auxiliary mod download\<close>

lemma timedelta_days_negative: "timedelta_days d < 0 \<longleftrightarrow> d < 0"
  by (simp add: timedelta_days_def pos_imp_zdiv_neg_iff)

lemma requests_head_eq:
  "requests_head e u w = (http e (sent w) (head_request u), w\<lparr>sent := sent w @ [head_request u]\<rparr>)"
  by (simp add: requests_head_def requests_request_def)

lemma allied_mods_check_file:
  assumes "fs w install_path = Some st" and "\<not> is_dir st"
    and "http e (sent w) (head_request download_url) = Inr resp2"
    and "map_of (headers resp2) ''Content-Length'' = Some remote_size"
    and "map_of (headers resp2) ''Last-Modified'' = Some lm"
    and "parsedate lm = Some remote_ts"
  shows "allied_mods_check e parsedate install_path download_url resp w
     = (Inr (remote_size = str_nat (st_size st) \<and> remote_ts < fromtimestamp (st_mtime st), resp2),
        w\<lparr>sent := sent w @ [head_request download_url]\<rparr>)"
  using assms
  by (simp add: allied_mods_check_def bind_io_def requests_head_eq return_io_def
      timedelta_days_negative)

text \<open>
  C4, amended. When the install path is a file and the HEAD response carries both
  headers, \<^verbatim>\<open>_allied_mods_download\<close> skips the download (returns \<^verbatim>\<open>False\<close> after the
  pointer GET and the HEAD, with no GET of the package) if and only if the remote
  \<^verbatim>\<open>Content-Length\<close> equals the text of the local size and the local file is newer
  than the remote \<^verbatim>\<open>Last-Modified\<close> instant: both conditions, not either.
\<close>

theorem allied_mods_skip:
  assumes "http e (sent w) (get_request (url_prefix @ ''/'' @ version @ ''/'' @ latest_suffix))
             = Inr resp"
    and "status_code resp = 200"
    and "fs w install_path = Some st" and "\<not> is_dir st"
    and "http e (sent w @ [get_request (url_prefix @ ''/'' @ version @ ''/'' @ latest_suffix)])
           (head_request (url_prefix @ ''/'' @ version @ ''/'' @ content resp)) = Inr resp2"
    and "map_of (headers resp2) ''Content-Length'' = Some remote_size"
    and "map_of (headers resp2) ''Last-Modified'' = Some lm"
    and "parsedate lm = Some remote_ts"
  shows "(fst (allied_mods_download e parsedate install_path url_prefix version latest_suffix w)
            = Inr False
          \<longleftrightarrow> remote_size = str_nat (st_size st) \<and> remote_ts < fromtimestamp (st_mtime st))
       \<and> sent (snd (allied_mods_download e parsedate install_path url_prefix version
                      latest_suffix w))
          = sent w
            @ [get_request (url_prefix @ ''/'' @ version @ ''/'' @ latest_suffix),
               head_request (url_prefix @ ''/'' @ version @ ''/'' @ content resp)]
            @ (if remote_size = str_nat (st_size st) \<and> remote_ts < fromtimestamp (st_mtime st)
               then []
               else [get_request (url_prefix @ ''/'' @ version @ ''/'' @ content resp)])"
proof -
  let ?latest = "url_prefix @ ''/'' @ version @ ''/'' @ latest_suffix"
  let ?url = "url_prefix @ ''/'' @ version @ ''/'' @ content resp"
  let ?w1 = "w\<lparr>sent := sent w @ [get_request ?latest]\<rparr>"
  let ?skip = "remote_size = str_nat (st_size st) \<and> remote_ts < fromtimestamp (st_mtime st)"
  let ?w2 = "?w1\<lparr>sent := sent ?w1 @ [head_request ?url]\<rparr>"
  from assms(3) have f1: "fs ?w1 install_path = Some st" by simp
  from assms(5) have h1: "http e (sent ?w1) (head_request ?url) = Inr resp2" by simp
  have chk: "allied_mods_check e parsedate install_path ?url resp ?w1 = (Inr (?skip, resp2), ?w2)"
    by (rule allied_mods_check_file[where parsedate = parsedate and lm = lm, OF f1 assms(4) h1 assms(6-8)])
  have unfold: "allied_mods_download e parsedate install_path url_prefix version latest_suffix w
      = (if ?skip
         then (Inr False, ?w2\<lparr>logged := logged ?w2 @ [LogAlreadyInstalled (content resp)]\<rparr>)
         else bind_io (download_file e ?url install_path) (\<lambda>_. return_io True)
                (?w2\<lparr>logged := logged ?w2 @ [LogHeaders (headers resp2),
                                                 LogDownloadingMetamod ?url]\<rparr>))"
    using assms(1,2) chk
    by (simp add: allied_mods_download_def Let_def bind_io_def requests_get_eq log_msg_def
        return_io_def)
  show ?thesis
  proof (cases ?skip)
    case True
    with unfold show ?thesis by simp
  next
    case False
    let ?w3 = "?w2\<lparr>logged := logged ?w2 @ [LogHeaders (headers resp2),
                                               LogDownloadingMetamod ?url]\<rparr>"
    obtain res w' where df: "download_file e ?url install_path ?w3 = (res, w')"
      by (cases "download_file e ?url install_path ?w3") auto
    from download_file_frame(1)[of e ?url install_path ?w3] df
    have sw': "sent w' = sent w @ [get_request ?latest, head_request ?url, get_request ?url]"
      by simp
    from False unfold df sw' show ?thesis
      by (cases res) (auto simp: bind_io_def return_io_def)
  qed
qed

lemma fromtimestamp_2000: "fromtimestamp 2000 = 2000000000"
  by (simp add: fromtimestamp_def Let_def)

theorem allied_mods_skip_witness:
  "fst (allied_mods_download env_mod (parsedate_as 1000000000) [''addons'', ''metamod.tar.gz'']
          ''http://mms'' ''1.11'' ''latest'' world_mod) = Inr False
   \<and> sent (snd (allied_mods_download env_mod (parsedate_as 1000000000)
                   [''addons'', ''metamod.tar.gz''] ''http://mms'' ''1.11'' ''latest'' world_mod))
     = [get_request ''http://mms/1.11/latest'', head_request ''http://mms/1.11/mm.tar.gz'']"
proof -
  have a1: "http env_mod (sent world_mod) (get_request (''http://mms'' @ ''/'' @ ''1.11'' @ ''/'' @ ''latest''))
      = Inr response_latest"
    by (simp add: env_mod_def get_request_def)
  have a2: "status_code response_latest = 200" by (simp add: response_latest_def)
  have a3: "fs world_mod [''addons'', ''metamod.tar.gz'']
      = Some \<lparr>is_dir = False, st_size = 100, st_mtime = 2000\<rparr>"
    by (simp add: world_mod_def)
  have a4: "\<not> is_dir \<lparr>is_dir = False, st_size = 100, st_mtime = 2000\<rparr>" by simp
  have a5: "http env_mod
      (sent world_mod @ [get_request (''http://mms'' @ ''/'' @ ''1.11'' @ ''/'' @ ''latest'')])
      (head_request (''http://mms'' @ ''/'' @ ''1.11'' @ ''/'' @ content response_latest))
      = Inr response_head"
    by (simp add: env_mod_def head_request_def)
  have a6: "map_of (headers response_head) ''Content-Length'' = Some ''100''"
    by (simp add: response_head_def)
  have a7: "map_of (headers response_head) ''Last-Modified'' = Some ''stamp''"
    by (simp add: response_head_def)
  have a8: "parsedate_as 1000000000 ''stamp'' = Some 1000000000" by (simp add: parsedate_as_def)
  from allied_mods_skip
    [where e = env_mod and w = world_mod and url_prefix = "''http://mms''"
       and version = "''1.11''" and latest_suffix = "''latest''"
       and parsedate = "parsedate_as 1000000000" and lm = "''stamp''"
       and resp = response_latest, OF a1 a2 a3 a4 a5 a6 a7 a8]
  show ?thesis
    by (simp add: str_nat_100 fromtimestamp_2000 response_latest_def world_mod_def)
qed

text \<open>
  With the sizes equal and the local file older than the remote one, the package is
  downloaded: a size match alone does not skip.
\<close>

theorem allied_mods_size_match_still_downloads:
  "str_nat (st_size \<lparr>is_dir = False, st_size = 100, st_mtime = 2000\<rparr>) = ''100''
   \<and> fs world_mod [''addons'', ''metamod.tar.gz'']
     = Some \<lparr>is_dir = False, st_size = 100, st_mtime = 2000\<rparr>
   \<and> map_of (headers response_head) ''Content-Length'' = Some ''100''
   \<and> fst (allied_mods_download env_mod (parsedate_as 3000000000) [''addons'', ''metamod.tar.gz'']
          ''http://mms'' ''1.11'' ''latest'' world_mod) = Inr True
   \<and> sent (snd (allied_mods_download env_mod (parsedate_as 3000000000)
                   [''addons'', ''metamod.tar.gz''] ''http://mms'' ''1.11'' ''latest'' world_mod))
     = [get_request ''http://mms/1.11/latest'', head_request ''http://mms/1.11/mm.tar.gz'',
        get_request ''http://mms/1.11/mm.tar.gz'']"
  by (simp add: str_nat_100 allied_mods_download_def allied_mods_check_def Let_def bind_io_def
      requests_get_eq requests_head_eq env_mod_def get_request_def head_request_def
      response_latest_def response_head_def world_mod_def dir_node_def parsedate_as_def
      fromtimestamp_2000 timedelta_days_def return_io_def raise_io_def log_msg_def
      download_file_eq write_file_def path_is_dir_def)

end
